theory Spec2Isabelle
  imports
    Main
    "HOL-Library.Word"
    "HOL-Library.AList"
    "HOL-Library.Char_ord"
    "HOL-Library.List_Lexorder"
begin

section \<open>The service pipeline of provision/servicecommon/actions.go\<close>

text \<open>
  The development embeds \<^verbatim>\<open>provision/servicecommon/actions.go\<close>: the request type
  \<^verbatim>\<open>ProcessState\<close>, the deploy step \<^verbatim>\<open>deployService\<close>, the compensation
  \<^verbatim>\<open>rollbackAddedProcesses\<close>, the three actions of the pipeline and the entry point
  \<^verbatim>\<open>RunServicePipeline\<close>.

  Conventions of the embedding.
  \<^item> Go's \<^verbatim>\<open>int\<close> is a 64-bit word; \<open>+\<close> wraps and \<open>sint\<close> reads the signed value.
  \<^item> A Go map is an association list. Its key order stands for the order in which
    \<^verbatim>\<open>range\<close> happens to visit the map, which Go leaves open; indexing a missing key
    gives the zero value, as in Go.
  \<^item> Every call on the \<^verbatim>\<open>ServiceManager\<close> interface is appended to the \<open>calls\<close> of
    the world, so that what a function asks of the backend, and in which order, can be read
    off the result. Every \<^verbatim>\<open>log.Errorf\<close> is appended to \<open>logged\<close>.
  \<^item> An \<^verbatim>\<open>error\<close> result is \<open>error option\<close> (\<open>None\<close> is \<^verbatim>\<open>nil\<close>); a result with a
    value is \<open>error + 'a\<close>.
\<close>

subsection \<open>Data\<close>

type_synonym goint = "64 word"

datatype error =
    ErrNoProcessInformation string  \<comment> \<open>"no process information found deploying image %q"\<close>
  | ErrLessThanZeroUnits            \<comment> \<open>"cannot have less than 0 units"\<close>
  | ErrExternal string              \<comment> \<open>an error of the backend, the label builder or the image store\<close>

record ProcessState =
  Stop :: bool
  Start :: bool
  Restart :: bool
  Sleep :: bool
  Increment :: goint

type_synonym ProcessSpec = "(string \<times> ProcessState) list"

text \<open>The zero value \<^verbatim>\<open>ProcessState{}\<close> and the literal \<^verbatim>\<open>ProcessState{Start: true}\<close>.\<close>

definition zeroState :: ProcessState where
  "zeroState = \<lparr>Stop = False, Start = False, Restart = False, Sleep = False, Increment = 0\<rparr>"

definition startState :: ProcessState where
  "startState = \<lparr>Stop = False, Start = True, Restart = False, Sleep = False, Increment = 0\<rparr>"

text \<open>\<^verbatim>\<open>spec[p]\<close>: the zero value when the key is missing.\<close>

definition specIndex :: "ProcessSpec \<Rightarrow> string \<Rightarrow> ProcessState" where
  "specIndex spec p = (case map_of spec p of Some st \<Rightarrow> st | None \<Rightarrow> zeroState)"

text \<open>
  Modelled from the spec: \<^verbatim>\<open>provision.LabelSet\<close> is not part of the sources at hand. The
  spec gives its interface: accessors for the replica count, the restart count, the stopped
  flag and the asleep flag, and the setters "mark stopped", "mark asleep" and "set restart
  count"; the base labels carry the application, the process name and the replica count.
\<close>

record LabelSet =
  labelApp :: string
  labelProcess :: string
  AppReplicas :: goint
  Restarts :: goint
  IsStopped :: bool
  IsAsleep :: bool

definition SetStopped :: "LabelSet \<Rightarrow> LabelSet" where
  "SetStopped l = l\<lparr>IsStopped := True\<rparr>"

definition SetAsleep :: "LabelSet \<Rightarrow> LabelSet" where
  "SetAsleep l = l\<lparr>IsAsleep := True\<rparr>"

definition SetRestarts :: "goint \<Rightarrow> LabelSet \<Rightarrow> LabelSet" where
  "SetRestarts n l = l\<lparr>Restarts := n\<rparr>"

record ServiceLabelsOpts =
  App :: string
  Process :: string
  Replicas :: goint

text \<open>The interface \<^verbatim>\<open>ServiceManager\<close>, over a backend state \<open>'s\<close>. Reading the labels
  leaves the backend as it is.\<close>

record 's ServiceManager =
  RemoveService :: "string \<Rightarrow> string \<Rightarrow> 's \<Rightarrow> error option \<times> 's"
  CurrentLabels :: "string \<Rightarrow> string \<Rightarrow> 's \<Rightarrow> error + LabelSet option"
  DeployService :: "string \<Rightarrow> string \<Rightarrow> LabelSet \<Rightarrow> goint \<Rightarrow> string \<Rightarrow> 's \<Rightarrow> error option \<times> 's"

text \<open>
  The package-level functions that \<^verbatim>\<open>actions.go\<close> calls and whose code is elsewhere are
  parameters: the validation of \<^verbatim>\<open>provision.ServiceLabels\<close> and the three functions of
  the image store. \<^verbatim>\<open>GetImageCustomData\<close> is cut down to the keys of \<^verbatim>\<open>Processes\<close>,
  the only part that is read here.
\<close>

record 's externals =
  labelsInvalid :: "ServiceLabelsOpts \<Rightarrow> error option"
  AppCurrentImageName :: "string \<Rightarrow> 's \<Rightarrow> error + string"
  GetImageCustomData :: "string \<Rightarrow> 's \<Rightarrow> error + string list"
  AppendAppImageName :: "string \<Rightarrow> string \<Rightarrow> 's \<Rightarrow> error option \<times> 's"

record 's pipelineArgs =
  manager :: "'s ServiceManager"
  app :: string
  newImage :: string
  newImageSpec :: ProcessSpec
  currentImage :: string
  currentImageSpec :: ProcessSpec

datatype call =
    CallRemoveService string string
  | CallCurrentLabels string string
  | CallDeployService string string LabelSet goint string


datatype logEntry =
    RollbackError string string error  \<comment> \<open>"error rolling back updated service for %s[%s]: %+v"\<close>
  | RemovalError string string error   \<comment> \<open>"ignored error removing unwanted service for %s[%s]: %+v"\<close>

record 's world =
  backend :: 's
  calls :: "call list"
  logged :: "logEntry list"

subsection \<open>Calls on the manager\<close>

definition callRemoveService ::
  "'s pipelineArgs \<Rightarrow> string \<Rightarrow> 's world \<Rightarrow> error option \<times> 's world" where
  "callRemoveService args processName w =
     (case RemoveService (manager args) (app args) processName (backend w) of
        (err, b) \<Rightarrow>
          (err, w\<lparr>backend := b,
                 calls := calls w @ [CallRemoveService (app args) processName]\<rparr>))"

definition callCurrentLabels ::
  "'s pipelineArgs \<Rightarrow> string \<Rightarrow> 's world \<Rightarrow> (error + LabelSet option) \<times> 's world" where
  "callCurrentLabels args processName w =
     (CurrentLabels (manager args) (app args) processName (backend w),
      w\<lparr>calls := calls w @ [CallCurrentLabels (app args) processName]\<rparr>)"

definition callDeployService ::
  "'s pipelineArgs \<Rightarrow> string \<Rightarrow> LabelSet \<Rightarrow> goint \<Rightarrow> string \<Rightarrow> 's world
     \<Rightarrow> error option \<times> 's world" where
  "callDeployService args processName labels replicas img w =
     (case DeployService (manager args) (app args) processName labels replicas img (backend w) of
        (err, b) \<Rightarrow>
          (err, w\<lparr>backend := b,
                 calls := calls w @ [CallDeployService (app args) processName labels replicas img]\<rparr>))"

definition logError :: "logEntry \<Rightarrow> 's world \<Rightarrow> 's world" where
  "logError e w = w\<lparr>logged := logged w @ [e]\<rparr>"

subsection \<open>The deploy step\<close>

text \<open>
  Modelled from the spec: \<^verbatim>\<open>provision.ServiceLabels\<close> is not part of the sources at hand.
  By the spec the label builder takes the application, the process name and the replica
  count and gives the base labels for them, or fails with a validation error; the base
  labels carry neither marker and no restart count.
\<close>

definition ServiceLabels :: "'s externals \<Rightarrow> ServiceLabelsOpts \<Rightarrow> error + LabelSet" where
  "ServiceLabels ext opts =
     (case labelsInvalid ext opts of
        Some err \<Rightarrow> Inl err
      | None \<Rightarrow>
          Inr \<lparr>labelApp = App opts, labelProcess = Process opts, AppReplicas = Replicas opts,
               Restarts = 0, IsStopped = False, IsAsleep = False\<rparr>)"

text \<open>
  Lines 104 to 126 of \<^verbatim>\<open>deployService\<close>: the replica count, the restart count and the
  two flags are read from the old labels (\<open>None\<close> is the \<^verbatim>\<open>nil\<close> pointer), the
  increment is applied and checked, and a start or a restart raises a count of zero to one
  and clears both flags.
\<close>

definition mergeState ::
  "ProcessState \<Rightarrow> LabelSet option \<Rightarrow> error + (goint \<times> goint \<times> bool \<times> bool)" where
  "mergeState pState oldLabels =
     (let replicas0 = (case oldLabels of None \<Rightarrow> 0 | Some l \<Rightarrow> AppReplicas l);
          restartCount = (case oldLabels of None \<Rightarrow> 0 | Some l \<Rightarrow> Restarts l);
          isStopped = (case oldLabels of None \<Rightarrow> False | Some l \<Rightarrow> IsStopped l);
          isAsleep = (case oldLabels of None \<Rightarrow> False | Some l \<Rightarrow> IsAsleep l);
          replicas = (if Increment pState \<noteq> 0 then replicas0 + Increment pState
                      else replicas0)
      in if Increment pState \<noteq> 0 \<and> sint replicas < 0 then Inl ErrLessThanZeroUnits
         else if Start pState \<or> Restart pState
         then Inr (if replicas = 0 then 1 else replicas, restartCount, False, False)
         else Inr (replicas, restartCount, isStopped, isAsleep))"

text \<open>
  Lines 135 to 146 of \<^verbatim>\<open>deployService\<close>: the number of replicas handed to the backend
  and the markers set on the labels.
\<close>

definition markLabels ::
  "ProcessState \<Rightarrow> goint \<Rightarrow> goint \<Rightarrow> bool \<Rightarrow> bool \<Rightarrow> LabelSet \<Rightarrow> LabelSet \<times> goint" where
  "markLabels pState replicas restartCount isStopped isAsleep labels0 =
     (let realReplicas = (if isStopped \<or> Stop pState then 0 else replicas);
          labels1 = (if isStopped \<or> Stop pState then SetStopped labels0 else labels0);
          labels2 = (if isAsleep \<or> Sleep pState then SetAsleep labels1 else labels1);
          labels3 = (if Restart pState then SetRestarts (restartCount + 1) labels2
                     else labels2)
      in (labels3, realReplicas))"

text \<open>\<^verbatim>\<open>deployService\<close>, lines 99 to 148.\<close>

definition deployService ::
  "'s externals \<Rightarrow> 's pipelineArgs \<Rightarrow> string \<Rightarrow> string \<Rightarrow> ProcessState \<Rightarrow> 's world
     \<Rightarrow> error option \<times> 's world" where
  "deployService ext args processName img pState w =
     (case callCurrentLabels args processName w of
        (Inl err, w1) \<Rightarrow> (Some err, w1)
      | (Inr oldLabels, w1) \<Rightarrow>
          (case mergeState pState oldLabels of
             Inl err \<Rightarrow> (Some err, w1)
           | Inr (replicas, restartCount, isStopped, isAsleep) \<Rightarrow>
               (case ServiceLabels ext
                       \<lparr>App = app args, Process = processName, Replicas = replicas\<rparr> of
                  Inl err \<Rightarrow> (Some err, w1)
                | Inr labels0 \<Rightarrow>
                    (case markLabels pState replicas restartCount isStopped isAsleep labels0 of
                       (labels, realReplicas) \<Rightarrow>
                         callDeployService args processName labels realReplicas img w1))))"

subsection \<open>Compensation\<close>

text \<open>\<^verbatim>\<open>rollbackAddedProcesses\<close>, lines 85 to 97. An error is logged and the loop goes on.\<close>

fun rollbackAddedProcesses ::
  "'s externals \<Rightarrow> 's pipelineArgs \<Rightarrow> string list \<Rightarrow> 's world \<Rightarrow> 's world" where
  "rollbackAddedProcesses ext args [] w = w"
| "rollbackAddedProcesses ext args (processName # processes) w =
     (case (case map_of (currentImageSpec args) processName of
              Some state \<Rightarrow> deployService ext args processName (currentImage args) state w
            | None \<Rightarrow> callRemoveService args processName w) of
        (Some err, w1) \<Rightarrow>
          rollbackAddedProcesses ext args processes
            (logError (RollbackError (app args) processName err) w1)
      | (None, w1) \<Rightarrow> rollbackAddedProcesses ext args processes w1)"

subsection \<open>The action update-services\<close>

text \<open>The second loop of \<^verbatim>\<open>Forward\<close>, lines 163 to 169: it stops at the first error and
  gives the processes deployed before it.\<close>

fun deployLoop ::
  "'s externals \<Rightarrow> 's pipelineArgs \<Rightarrow> string list \<Rightarrow> string list \<Rightarrow> 's world
     \<Rightarrow> string list \<times> error option \<times> 's world" where
  "deployLoop ext args [] deployedProcesses w = (deployedProcesses, None, w)"
| "deployLoop ext args (processName # rest) deployedProcesses w =
     (case deployService ext args processName (newImage args)
             (specIndex (newImageSpec args) processName) w of
        (Some err, w1) \<Rightarrow> (deployedProcesses, Some err, w1)
      | (None, w1) \<Rightarrow> deployLoop ext args rest (deployedProcesses @ [processName]) w1)"

text \<open>\<^verbatim>\<open>updateServices.Forward\<close>, lines 152 to 175. \<^verbatim>\<open>sort.Strings\<close> orders the names
  by their bytes, which is the lexicographic order of \<open>string\<close>.\<close>

definition updateServices_Forward ::
  "'s externals \<Rightarrow> 's pipelineArgs \<Rightarrow> 's world \<Rightarrow> (error + string list) \<times> 's world" where
  "updateServices_Forward ext args w =
     (let toDeployProcesses = sort (map fst (newImageSpec args))
      in case deployLoop ext args toDeployProcesses [] w of
           (deployedProcesses, Some err, w1) \<Rightarrow>
             (Inl err, rollbackAddedProcesses ext args deployedProcesses w1)
         | (deployedProcesses, None, w1) \<Rightarrow> (Inr deployedProcesses, w1))"

text \<open>\<^verbatim>\<open>updateServices.Backward\<close>, lines 176 to 180.\<close>

definition updateServices_Backward ::
  "'s externals \<Rightarrow> 's pipelineArgs \<Rightarrow> string list \<Rightarrow> 's world \<Rightarrow> 's world" where
  "updateServices_Backward ext args deployedProcesses w =
     rollbackAddedProcesses ext args deployedProcesses w"

subsection \<open>The action update-image-in-db\<close>

text \<open>\<^verbatim>\<open>updateImageInDB.Forward\<close>, lines 185 to 192; \<open>previous\<close> is \<^verbatim>\<open>ctx.Previous\<close>.\<close>

definition updateImageInDB_Forward ::
  "'s externals \<Rightarrow> 's pipelineArgs \<Rightarrow> string list \<Rightarrow> 's world
     \<Rightarrow> (error + string list) \<times> 's world" where
  "updateImageInDB_Forward ext args previous w =
     (case AppendAppImageName ext (app args) (newImage args) (backend w) of
        (Some err, b) \<Rightarrow> (Inl err, w\<lparr>backend := b\<rparr>)
      | (None, b) \<Rightarrow> (Inr previous, w\<lparr>backend := b\<rparr>))"

subsection \<open>The action remove-old-services\<close>

text \<open>
  Modelled from the spec: the package \<^verbatim>\<open>set\<close> is not part of the sources at hand. By the
  spec \<^verbatim>\<open>FromMap\<close> gives the keys of a map and \<^verbatim>\<open>Difference\<close> the names that are keys
  of the first set and not of the second. A set is the list of its members in the order
  in which \<^verbatim>\<open>range\<close> visits it.
\<close>

definition FromMap :: "ProcessSpec \<Rightarrow> string list" where
  "FromMap spec = map fst spec"

definition Difference :: "string list \<Rightarrow> string list \<Rightarrow> string list" where
  "Difference old new = filter (\<lambda>p. p \<notin> set new) old"

text \<open>The loop of \<^verbatim>\<open>removeOldServices.Forward\<close>, lines 201 to 206.\<close>

fun removeLoop :: "'s pipelineArgs \<Rightarrow> string list \<Rightarrow> 's world \<Rightarrow> 's world" where
  "removeLoop args [] w = w"
| "removeLoop args (processName # rest) w =
     (case callRemoveService args processName w of
        (Some err, w1) \<Rightarrow>
          removeLoop args rest (logError (RemovalError (app args) processName err) w1)
      | (None, w1) \<Rightarrow> removeLoop args rest w1)"

text \<open>\<^verbatim>\<open>removeOldServices.Forward\<close>, lines 197 to 208; the result \<^verbatim>\<open>nil, nil\<close> is
  \<open>Inr []\<close>.\<close>

definition removeOldServices_Forward ::
  "'s pipelineArgs \<Rightarrow> 's world \<Rightarrow> (error + string list) \<times> 's world" where
  "removeOldServices_Forward args w =
     (let old = FromMap (currentImageSpec args);
          new = FromMap (newImageSpec args)
      in (Inr [], removeLoop args (Difference old new) w))"

subsection \<open>The pipeline\<close>

text \<open>
  Modelled from the spec: \<^verbatim>\<open>action.Pipeline.Execute\<close> is not part of the sources at hand.
  By the spec the driver runs the forward operations in order, hands each result to the
  next stage, and on the failure of a stage runs the compensation of every stage completed
  before it, in reverse order, and returns the error of the failed stage. Of the three
  actions only update-services has a compensation.
\<close>

definition Execute ::
  "'s externals \<Rightarrow> 's pipelineArgs \<Rightarrow> 's world \<Rightarrow> error option \<times> 's world" where
  "Execute ext args w =
     (case updateServices_Forward ext args w of
        (Inl err, w1) \<Rightarrow> (Some err, w1)
      | (Inr deployed, w1) \<Rightarrow>
          (case updateImageInDB_Forward ext args deployed w1 of
             (Inl err, w2) \<Rightarrow> (Some err, updateServices_Backward ext args deployed w2)
           | (Inr previous, w2) \<Rightarrow>
               (case removeOldServices_Forward args w2 of
                  (Inl err, w3) \<Rightarrow> (Some err, updateServices_Backward ext args deployed w3)
                | (Inr r, w3) \<Rightarrow> (None, w3))))"

text \<open>The loop of lines 53 to 55: every process of the current image gets the zero state.\<close>

definition buildCurrentSpec :: "string list \<Rightarrow> ProcessSpec" where
  "buildCurrentSpec processes = fold (\<lambda>p spec. AList.update p zeroState spec) processes []"

text \<open>The loop of lines 63 to 69; \<open>None\<close> is the \<^verbatim>\<open>nil\<close> map.\<close>

definition buildNewSpec :: "string list \<Rightarrow> ProcessSpec option \<Rightarrow> ProcessSpec" where
  "buildNewSpec processes updateSpec =
     fold (\<lambda>p spec.
             (let spec1 = AList.update p startState spec
              in case updateSpec of
                   None \<Rightarrow> spec1
                 | Some u \<Rightarrow> AList.update p (specIndex u p) spec1))
          processes []"

text \<open>\<^verbatim>\<open>RunServicePipeline\<close>, lines 43 to 83.\<close>

definition RunServicePipeline ::
  "'s externals \<Rightarrow> 's ServiceManager \<Rightarrow> string \<Rightarrow> string \<Rightarrow> ProcessSpec option \<Rightarrow> 's world
     \<Rightarrow> error option \<times> 's world" where
  "RunServicePipeline ext mgr a newImg updateSpec w =
     (case AppCurrentImageName ext a (backend w) of
        Inl err \<Rightarrow> (Some err, w)
      | Inr curImg \<Rightarrow>
          (case GetImageCustomData ext curImg (backend w) of
             Inl err \<Rightarrow> (Some err, w)
           | Inr currentProcesses \<Rightarrow>
               (let currentSpec = buildCurrentSpec currentProcesses
                in case GetImageCustomData ext newImg (backend w) of
                     Inl err \<Rightarrow> (Some err, w)
                   | Inr newProcesses \<Rightarrow>
                       if length newProcesses = 0
                       then (Some (ErrNoProcessInformation newImg), w)
                       else
                         (let newSpec = buildNewSpec newProcesses updateSpec
                          in Execute ext
                               \<lparr>manager = mgr, app = a, newImage = newImg,
                                newImageSpec = newSpec, currentImage = curImg,
                                currentImageSpec = currentSpec\<rparr> w))))"

subsection \<open>Reading the calls of a run\<close>

text \<open>The calls made between two worlds, the earlier one first.\<close>

definition newCalls :: "'s world \<Rightarrow> 's world \<Rightarrow> call list" where
  "newCalls w w' = drop (length (calls w)) (calls w')"

subsection \<open>A backend in memory\<close>

text \<open>
  To run the pipeline on concrete inputs: a manager that keeps, for every process, the
  labels, the replicas and the image of the last deploy, and an image store with a fixed
  current image and a fixed table of images.
\<close>

type_synonym services = "(string \<times> LabelSet \<times> goint \<times> string) list"

definition recordManager :: "services ServiceManager" where
  "recordManager =
     \<lparr>RemoveService = (\<lambda>a p s. (None, AList.delete p s)),
      CurrentLabels = (\<lambda>a p s. Inr (map_option fst (map_of s p))),
      DeployService = (\<lambda>a p l r i s. (None, AList.update p (l, r, i) s))\<rparr>"

definition memoryExternals ::
  "string \<Rightarrow> (string \<times> string list) list \<Rightarrow> services externals" where
  "memoryExternals cur images =
     \<lparr>labelsInvalid = (\<lambda>opts. None),
      AppCurrentImageName = (\<lambda>a s. Inr cur),
      GetImageCustomData =
        (\<lambda>i s. case map_of images i of
                  Some ps \<Rightarrow> Inr ps
                | None \<Rightarrow> Inl (ErrExternal ''image not found'')),
      AppendAppImageName = (\<lambda>a i s. (None, s))\<rparr>"

definition world0 :: "services \<Rightarrow> services world" where
  "world0 s = \<lparr>backend = s, calls = [], logged = []\<rparr>"

text \<open>The inputs of the concrete runs below.\<close>

definition demoLabels :: "goint \<Rightarrow> goint \<Rightarrow> bool \<Rightarrow> bool \<Rightarrow> LabelSet" where
  "demoLabels n rc s a =
     \<lparr>labelApp = ''app'', labelProcess = ''web'', AppReplicas = n, Restarts = rc,
      IsStopped = s, IsAsleep = a\<rparr>"

definition demoArgs :: "services pipelineArgs" where
  "demoArgs =
     \<lparr>manager = recordManager, app = ''app'', newImage = ''v2'',
      newImageSpec = [(''web'', startState)], currentImage = ''v1'',
      currentImageSpec = [(''web'', zeroState)]\<rparr>"

definition demoExt :: "services externals" where
  "demoExt = memoryExternals ''v1'' [(''v1'', [''web'']), (''v2'', [''web'', ''worker''])]"

definition demoFailArgs :: "services pipelineArgs" where
  "demoFailArgs =
     demoArgs\<lparr>newImageSpec :=
       [(''worker'', \<lparr>Stop = False, Start = False, Restart = False, Sleep = False,
                      Increment = - 1\<rparr>),
        (''web'', startState)]\<rparr>"

subsection \<open>Reading the log of a run\<close>

text \<open>
  The error results of the steps of a compensation and of the removals of stage C, one
  for each process in the order of the list, each step taken in the world that the steps
  before it have left; \<open>failures\<close> keeps the steps that gave an error.
\<close>

definition compensationResult ::
  "'s externals \<Rightarrow> 's pipelineArgs \<Rightarrow> string \<Rightarrow> 's world \<Rightarrow> error option" where
  "compensationResult ext args p w =
     fst (case map_of (currentImageSpec args) p of
            Some state \<Rightarrow> deployService ext args p (currentImage args) state w
          | None \<Rightarrow> callRemoveService args p w)"


fun removalResults ::
  "'s pipelineArgs \<Rightarrow> string list \<Rightarrow> 's world \<Rightarrow> (string \<times> error option) list" where
  "removalResults args [] w = []"
| "removalResults args (p # ps) w =
     (p, fst (callRemoveService args p w)) # removalResults args ps (removeLoop args [p] w)"

fun failures :: "(string \<times> error option) list \<Rightarrow> (string \<times> error) list" where
  "failures [] = []"
| "failures ((p, None) # rs) = failures rs"
| "failures ((p, Some e) # rs) = (p, e) # failures rs"

text \<open>
  Managers whose removals fail, and whose deploys of the image \<^verbatim>\<open>v1\<close> fail, and
  the inputs of the runs that use them.
\<close>

definition removeFailManager :: "services ServiceManager" where
  "removeFailManager =
     recordManager\<lparr>RemoveService := (\<lambda>a p s. (Some (ErrExternal ''remove failed''), s))\<rparr>"

definition rollbackFailManager :: "services ServiceManager" where
  "rollbackFailManager =
     recordManager\<lparr>DeployService :=
       (\<lambda>a p l r i s. if i = ''v1'' then (Some (ErrExternal ''deploy failed''), s)
                       else (None, AList.update p (l, r, i) s))\<rparr>"

definition demoRemoveArgs :: "services pipelineArgs" where
  "demoRemoveArgs =
     demoArgs\<lparr>manager := removeFailManager,
              newImageSpec := [(''a'', startState), (''c'', startState)],
              currentImageSpec := [(''a'', zeroState), (''b'', zeroState), (''c'', zeroState)]\<rparr>"

definition demoRollbackFailArgs :: "services pipelineArgs" where
  "demoRollbackFailArgs = demoFailArgs\<lparr>manager := rollbackFailManager\<rparr>"

definition startedLabels :: "string \<Rightarrow> LabelSet" where
  "startedLabels p =
     \<lparr>labelApp = ''app'', labelProcess = p, AppReplicas = 1, Restarts = 0,
      IsStopped = False, IsAsleep = False\<rparr>"

section \<open>Properties\<close>

subsection \<open>The calls of the deploy step\<close>

lemma newCalls_append: "calls w' = calls w @ cs \<Longrightarrow> newCalls w w' = cs"
  by (simp add: newCalls_def)

lemma markLabels_eq:
  "markLabels st n rc s a l =
     (l\<lparr>IsStopped := IsStopped l \<or> s \<or> Stop st,
        IsAsleep := IsAsleep l \<or> a \<or> Sleep st,
        Restarts := (if Restart st then rc + 1 else Restarts l)\<rparr>,
      if s \<or> Stop st then 0 else n)"
  by (simp add: markLabels_def Let_def SetStopped_def SetAsleep_def SetRestarts_def)


lemma deployService_label_error:
  assumes "CurrentLabels (manager args) (app args) p (backend w) = Inl e"
  shows "deployService ext args p img st w =
           (Some e, w\<lparr>calls := calls w @ [CallCurrentLabels (app args) p]\<rparr>)"
  using assms by (simp add: deployService_def callCurrentLabels_def)

lemma deployService_merge_error:
  assumes "CurrentLabels (manager args) (app args) p (backend w) = Inr ol"
    and "mergeState st ol = Inl e"
  shows "deployService ext args p img st w =
           (Some e, w\<lparr>calls := calls w @ [CallCurrentLabels (app args) p]\<rparr>)"
  using assms by (simp add: deployService_def callCurrentLabels_def)

lemma deployService_deploys:
  assumes "CurrentLabels (manager args) (app args) p (backend w) = Inr ol"
    and "mergeState st ol = Inr (n, rc, s, a)"
    and "labelsInvalid ext \<lparr>App = app args, Process = p, Replicas = n\<rparr> = None"
  shows "deployService ext args p img st w =
           callDeployService args p
             \<lparr>labelApp = app args, labelProcess = p, AppReplicas = n,
              Restarts = (if Restart st then rc + 1 else 0),
              IsStopped = (s \<or> Stop st), IsAsleep = (a \<or> Sleep st)\<rparr>
             (if s \<or> Stop st then 0 else n) img
             (w\<lparr>calls := calls w @ [CallCurrentLabels (app args) p]\<rparr>)"
  using assms
  by (simp add: deployService_def callCurrentLabels_def ServiceLabels_def markLabels_eq)

lemma callDeployService_calls:
  "calls (snd (callDeployService args p l r img w)) = calls w @ [CallDeployService (app args) p l r img]"
  by (simp add: callDeployService_def split: prod.split)

lemma callRemoveService_calls:
  "calls (snd (callRemoveService args p w)) = calls w @ [CallRemoveService (app args) p]"
  by (simp add: callRemoveService_def split: prod.split)

lemma sint_add_negative:
  fixes n i :: goint
  assumes "0 \<le> sint n" and "sint n + sint i < 0"
  shows "sint (n + i) < 0"
proof -
  have lo: "- (2 ^ 63) \<le> sint n + sint i"
    using assms(1) sint_ge [of i] by simp
  have hi: "sint n + sint i < 2 ^ 63"
    using assms(2) by simp
  have "sint (n + i) = signed_take_bit 63 (sint n + sint i)"
    by (simp add: sint_word_ariths)
  also have "\<dots> = sint n + sint i"
    using lo hi by (simp add: signed_take_bit_int_eq_self)
  finally show ?thesis using assms(2) by simp
qed

lemma mergeState_invalid:
  assumes "0 \<le> sint (case ol of None \<Rightarrow> 0 | Some l \<Rightarrow> AppReplicas l)"
    and "sint (case ol of None \<Rightarrow> 0 | Some l \<Rightarrow> AppReplicas l) + sint (Increment st) < 0"
  shows "mergeState st ol = Inl ErrLessThanZeroUnits"
proof -
  have nz: "Increment st \<noteq> 0"
    using assms by auto
  have "sint ((case ol of None \<Rightarrow> 0 | Some l \<Rightarrow> AppReplicas l) + Increment st) < 0"
    using assms by (rule sint_add_negative)
  with nz show ?thesis
    by (simp add: mergeState_def Let_def)
qed


lemma newCalls_callDeployService:
  "newCalls w (snd (callDeployService args p l r img (w\<lparr>calls := calls w @ cs\<rparr>))) =
     cs @ [CallDeployService (app args) p l r img]"
  by (rule newCalls_append) (simp add: callDeployService_calls)

lemma deployService_deploy_call:
  assumes "CallDeployService a q l r i \<in> set (newCalls w (snd (deployService ext args p img st w)))"
  shows "\<exists>ol n rc s a'.
           CurrentLabels (manager args) (app args) p (backend w) = Inr ol \<and>
           mergeState st ol = Inr (n, rc, s, a') \<and>
           l = \<lparr>labelApp = app args, labelProcess = p, AppReplicas = n,
                Restarts = (if Restart st then rc + 1 else 0),
                IsStopped = (s \<or> Stop st), IsAsleep = (a' \<or> Sleep st)\<rparr> \<and>
           r = (if s \<or> Stop st then 0 else n) \<and> a = app args \<and> q = p \<and> i = img"
proof (cases "CurrentLabels (manager args) (app args) p (backend w)")
  case (Inl e)
  from assms show ?thesis
    by (simp add: deployService_label_error [OF Inl] newCalls_def)
next
  case (Inr ol)
  show ?thesis
  proof (cases "mergeState st ol")
    case (Inl e)
    from assms show ?thesis
      by (simp add: deployService_merge_error [OF Inr Inl] newCalls_def)
  next
    case mr: (Inr t)
    obtain n rc s a' where t: "t = (n, rc, s, a')"
      by (cases t) auto
    show ?thesis
    proof (cases "labelsInvalid ext \<lparr>App = app args, Process = p, Replicas = n\<rparr>")
      case None
      from assms Inr mr show ?thesis
        unfolding t deployService_deploys [OF Inr mr [unfolded t] None]
          newCalls_callDeployService
        by simp
    next
      case (Some e)
      with Inr mr t have "deployService ext args p img st w =
          (Some e, w\<lparr>calls := calls w @ [CallCurrentLabels (app args) p]\<rparr>)"
        by (simp add: deployService_def callCurrentLabels_def ServiceLabels_def)
      with assms show ?thesis
        by (simp add: newCalls_def)
    qed
  qed
qed

lemma mergeState_flags:
  assumes "mergeState st ol = Inr (n, rc, s, a)"
  shows "s = (\<not> (Start st \<or> Restart st) \<and> (case ol of None \<Rightarrow> False | Some l \<Rightarrow> IsStopped l))"
    and "a = (\<not> (Start st \<or> Restart st) \<and> (case ol of None \<Rightarrow> False | Some l \<Rightarrow> IsAsleep l))"
    and "rc = (case ol of None \<Rightarrow> 0 | Some l \<Rightarrow> Restarts l)"
  using assms by (auto simp: mergeState_def Let_def split: if_splits)

subsection \<open>Stop takes precedence over start and restart\<close>

text \<open>
  Claim C9. In the deploy step a requested stop always forces the replicas handed to the
  backend to zero: for every request with \<open>Stop\<close> set, also when \<open>Start\<close> or
  \<open>Restart\<close> is set in the same request, every deploy call of the step receives zero
  replicas and labels with the stopped marker; and whenever the label read, the merge and
  the label builder succeed, the step makes exactly that deploy call after the label read.
\<close>

theorem deployService_stop_scales_to_zero:
  assumes "Stop st"
  shows "(\<forall>a q l r i.
            CallDeployService a q l r i
              \<in> set (newCalls w (snd (deployService ext args p img st w))) \<longrightarrow>
            r = 0 \<and> IsStopped l) \<and>
         (\<forall>ol n rc s a'.
            CurrentLabels (manager args) (app args) p (backend w) = Inr ol \<and>
            mergeState st ol = Inr (n, rc, s, a') \<and>
            labelsInvalid ext \<lparr>App = app args, Process = p, Replicas = n\<rparr> = None \<longrightarrow>
            newCalls w (snd (deployService ext args p img st w)) =
              [CallCurrentLabels (app args) p,
               CallDeployService (app args) p
                 \<lparr>labelApp = app args, labelProcess = p, AppReplicas = n,
                  Restarts = (if Restart st then rc + 1 else 0),
                  IsStopped = True, IsAsleep = (a' \<or> Sleep st)\<rparr>
                 0 img])"
proof -
  have every: "r = 0 \<and> IsStopped l"
    if "CallDeployService a q l r i
          \<in> set (newCalls w (snd (deployService ext args p img st w)))"
    for a q l r i
    using deployService_deploy_call [OF that] assms by auto
  have issued: "newCalls w (snd (deployService ext args p img st w)) =
              [CallCurrentLabels (app args) p,
               CallDeployService (app args) p
                 \<lparr>labelApp = app args, labelProcess = p, AppReplicas = n,
                  Restarts = (if Restart st then rc + 1 else 0),
                  IsStopped = True, IsAsleep = (a' \<or> Sleep st)\<rparr>
                 0 img]"
    if "CurrentLabels (manager args) (app args) p (backend w) = Inr ol"
      and "mergeState st ol = Inr (n, rc, s, a')"
      and "labelsInvalid ext \<lparr>App = app args, Process = p, Replicas = n\<rparr> = None"
    for ol n rc s a'
    using assms
    by (simp add: deployService_deploys [OF that] newCalls_callDeployService)
  from every issued show ?thesis
    by blast
qed

theorem deployService_stop_scales_to_zero_witness:
  "Stop \<lparr>Stop = True, Start = True, Restart = False, Sleep = False, Increment = 0\<rparr> \<and>
   newCalls (world0 [(''web'', demoLabels 3 2 False False, 3, ''v1'')])
     (snd (deployService demoExt demoArgs ''web'' ''v2''
            \<lparr>Stop = True, Start = True, Restart = False, Sleep = False, Increment = 0\<rparr>
            (world0 [(''web'', demoLabels 3 2 False False, 3, ''v1'')]))) =
     [CallCurrentLabels ''app'' ''web'',
      CallDeployService ''app'' ''web''
        \<lparr>labelApp = ''app'', labelProcess = ''web'', AppReplicas = 3, Restarts = 0,
         IsStopped = True, IsAsleep = False\<rparr> 0 ''v2'']"
proof -
  let ?st = "\<lparr>Stop = True, Start = True, Restart = False, Sleep = False, Increment = 0\<rparr>"
  let ?w = "world0 [(''web'', demoLabels 3 2 False False, 3, ''v1'')]"
  have s: "Stop ?st" by simp
  have cl: "CurrentLabels (manager demoArgs) (app demoArgs) ''web'' (backend ?w) =
              Inr (Some (demoLabels 3 2 False False))"
    by (simp add: demoArgs_def recordManager_def world0_def)
  have ms: "mergeState ?st (Some (demoLabels 3 2 False False)) = Inr (3, 2, False, False)"
    by (simp add: mergeState_def demoLabels_def)
  have li: "labelsInvalid demoExt \<lparr>App = app demoArgs, Process = ''web'', Replicas = 3\<rparr> = None"
    by (simp add: demoExt_def memoryExternals_def)
  from deployService_stop_scales_to_zero [OF s, of ?w demoExt demoArgs "''web''" "''v2''"]
    cl ms li
  have "newCalls ?w (snd (deployService demoExt demoArgs ''web'' ''v2'' ?st ?w)) =
          [CallCurrentLabels (app demoArgs) ''web'',
           CallDeployService (app demoArgs) ''web''
             \<lparr>labelApp = app demoArgs, labelProcess = ''web'', AppReplicas = 3,
              Restarts = (if Restart ?st then 2 + 1 else 0),
              IsStopped = True, IsAsleep = (False \<or> Sleep ?st)\<rparr> 0 ''v2'']"
    by blast
  then show ?thesis
    by (simp add: demoArgs_def)
qed

subsection \<open>Evaluation on concrete inputs\<close>

lemmas step_defs =
  deployService_def callCurrentLabels_def callDeployService_def callRemoveService_def
  mergeState_def markLabels_def ServiceLabels_def SetStopped_def SetAsleep_def SetRestarts_def
  logError_def newCalls_def

lemmas demo_defs =
  demoArgs_def demoExt_def demoLabels_def memoryExternals_def recordManager_def world0_def

lemmas pipeline_defs =
  RunServicePipeline_def Execute_def updateServices_Forward_def updateServices_Backward_def
  updateImageInDB_Forward_def removeOldServices_Forward_def FromMap_def Difference_def
  buildCurrentSpec_def buildNewSpec_def specIndex_def zeroState_def startState_def

lemmas log_defs =
  removeFailManager_def rollbackFailManager_def demoRemoveArgs_def demoRollbackFailArgs_def
  startedLabels_def compensationResult_def demoFailArgs_def

subsection \<open>Sleep marks the labels only\<close>

text \<open>
  Claim C10. Requesting sleep never scales a process down: for a request with \<open>Sleep\<close>
  set and \<open>Stop\<close> not set, on a process whose old labels are not marked stopped (or
  that has no labels yet), every deploy call of the step receives as replicas the replica
  count computed by the merge, which is the count written to the labels, and not the zero
  that a stop forces; the labels carry the asleep marker and not the stopped marker.
  Whenever the merge and the label builder succeed, the step makes exactly that deploy call
  after the label read.
\<close>

theorem deployService_sleep_keeps_replicas:
  assumes "Sleep st" and "\<not> Stop st"
    and "CurrentLabels (manager args) (app args) p (backend w) = Inr ol"
    and "case ol of None \<Rightarrow> True | Some l0 \<Rightarrow> \<not> IsStopped l0"
  shows "(\<forall>a q l r i.
            CallDeployService a q l r i
              \<in> set (newCalls w (snd (deployService ext args p img st w))) \<longrightarrow>
            r = AppReplicas l \<and> IsAsleep l \<and> \<not> IsStopped l) \<and>
         (\<forall>n rc s a'.
            mergeState st ol = Inr (n, rc, s, a') \<and>
            labelsInvalid ext \<lparr>App = app args, Process = p, Replicas = n\<rparr> = None \<longrightarrow>
            newCalls w (snd (deployService ext args p img st w)) =
              [CallCurrentLabels (app args) p,
               CallDeployService (app args) p
                 \<lparr>labelApp = app args, labelProcess = p, AppReplicas = n,
                  Restarts = (if Restart st then rc + 1 else 0),
                  IsStopped = False, IsAsleep = True\<rparr>
                 n img])"
proof -
  have notStopped: "\<not> s"
    if "mergeState st ol = Inr (n, rc, s, a')" for n rc s a'
    using mergeState_flags(1) [OF that] assms(4) by (auto split: option.splits)
  have every: "r = AppReplicas l \<and> IsAsleep l \<and> \<not> IsStopped l"
    if "CallDeployService a q l r i
          \<in> set (newCalls w (snd (deployService ext args p img st w)))"
    for a q l r i
  proof -
    from deployService_deploy_call [OF that] assms(3)
    obtain n rc s a' where m: "mergeState st ol = Inr (n, rc, s, a')"
      and l: "l = \<lparr>labelApp = app args, labelProcess = p, AppReplicas = n,
                Restarts = (if Restart st then rc + 1 else 0),
                IsStopped = (s \<or> Stop st), IsAsleep = (a' \<or> Sleep st)\<rparr>"
      and r: "r = (if s \<or> Stop st then 0 else n)"
      by auto
    from notStopped [OF m] l r assms(1,2) show ?thesis by simp
  qed
  have issued: "newCalls w (snd (deployService ext args p img st w)) =
              [CallCurrentLabels (app args) p,
               CallDeployService (app args) p
                 \<lparr>labelApp = app args, labelProcess = p, AppReplicas = n,
                  Restarts = (if Restart st then rc + 1 else 0),
                  IsStopped = False, IsAsleep = True\<rparr>
                 n img]"
    if m: "mergeState st ol = Inr (n, rc, s, a')"
      and li: "labelsInvalid ext \<lparr>App = app args, Process = p, Replicas = n\<rparr> = None"
    for n rc s a'
    using assms(1,2) notStopped [OF m]
    by (simp add: deployService_deploys [OF assms(3) m li] newCalls_callDeployService)
  from every issued show ?thesis
    by blast
qed

theorem deployService_sleep_keeps_replicas_witness:
  "Sleep \<lparr>Stop = False, Start = False, Restart = False, Sleep = True, Increment = 0\<rparr> \<and>
   \<not> Stop \<lparr>Stop = False, Start = False, Restart = False, Sleep = True, Increment = 0\<rparr> \<and>
   \<not> IsStopped (demoLabels 3 2 False False) \<and>
   newCalls (world0 [(''web'', demoLabels 3 2 False False, 3, ''v1'')])
     (snd (deployService demoExt demoArgs ''web'' ''v2''
            \<lparr>Stop = False, Start = False, Restart = False, Sleep = True, Increment = 0\<rparr>
            (world0 [(''web'', demoLabels 3 2 False False, 3, ''v1'')]))) =
     [CallCurrentLabels ''app'' ''web'',
      CallDeployService ''app'' ''web''
        \<lparr>labelApp = ''app'', labelProcess = ''web'', AppReplicas = 3, Restarts = 0,
         IsStopped = False, IsAsleep = True\<rparr> 3 ''v2'']"
proof -
  let ?st = "\<lparr>Stop = False, Start = False, Restart = False, Sleep = True, Increment = 0\<rparr>"
  let ?w = "world0 [(''web'', demoLabels 3 2 False False, 3, ''v1'')]"
  have s: "Sleep ?st" and ns: "\<not> Stop ?st" by simp_all
  have cl: "CurrentLabels (manager demoArgs) (app demoArgs) ''web'' (backend ?w) =
              Inr (Some (demoLabels 3 2 False False))"
    by (simp add: demoArgs_def recordManager_def world0_def)
  have st: "case Some (demoLabels 3 2 False False) of None \<Rightarrow> True
            | Some l0 \<Rightarrow> \<not> IsStopped l0"
    by (simp add: demoLabels_def)
  have ms: "mergeState ?st (Some (demoLabels 3 2 False False)) = Inr (3, 2, False, False)"
    by (simp add: mergeState_def demoLabels_def)
  have li: "labelsInvalid demoExt \<lparr>App = app demoArgs, Process = ''web'', Replicas = 3\<rparr> = None"
    by (simp add: demoExt_def memoryExternals_def)
  from deployService_sleep_keeps_replicas [OF s ns cl st, of demoExt "''v2''"] ms li
  have "newCalls ?w (snd (deployService demoExt demoArgs ''web'' ''v2'' ?st ?w)) =
          [CallCurrentLabels (app demoArgs) ''web'',
           CallDeployService (app demoArgs) ''web''
             \<lparr>labelApp = app demoArgs, labelProcess = ''web'', AppReplicas = 3,
              Restarts = (if Restart ?st then 2 + 1 else 0),
              IsStopped = False, IsAsleep = True\<rparr> 3 ''v2'']"
    by blast
  then show ?thesis
    by (simp add: demoArgs_def demoLabels_def)
qed

subsection \<open>An increment below zero\<close>

text \<open>
  Claim C5, amended. For a process whose replica count, read from its labels and not
  negative, plus the requested increment is below zero, the deploy step fails with the
  invalid-scale error; the label read is the only call made on the backend for that
  process, so no deploy and no remove call is made, and the backend is left as it was.
\<close>

theorem deployService_invalid_scale:
  assumes "CurrentLabels (manager args) (app args) p (backend w) = Inr ol"
    and "0 \<le> sint (case ol of None \<Rightarrow> 0 | Some l \<Rightarrow> AppReplicas l)"
    and "sint (case ol of None \<Rightarrow> 0 | Some l \<Rightarrow> AppReplicas l) + sint (Increment st) < 0"
  shows "deployService ext args p img st w =
           (Some ErrLessThanZeroUnits,
            w\<lparr>calls := calls w @ [CallCurrentLabels (app args) p]\<rparr>)"
  using assms(1) mergeState_invalid [OF assms(2,3)]
  by (rule deployService_merge_error)

theorem deployService_invalid_scale_witness:
  "0 \<le> sint (3 :: goint) \<and> sint (3 :: goint) + sint (- 4 :: goint) < 0 \<and>
   deployService demoExt demoArgs ''web'' ''v2''
     \<lparr>Stop = False, Start = False, Restart = False, Sleep = False, Increment = - 4\<rparr>
     (world0 [(''web'', demoLabels 3 2 False False, 3, ''v1'')]) =
   (Some ErrLessThanZeroUnits,
    \<lparr>backend = [(''web'', demoLabels 3 2 False False, 3, ''v1'')],
     calls = [CallCurrentLabels ''app'' ''web''], logged = []\<rparr>)"
proof -
  let ?st = "\<lparr>Stop = False, Start = False, Restart = False, Sleep = False, Increment = - 4\<rparr>"
  let ?w = "world0 [(''web'', demoLabels 3 2 False False, 3, ''v1'')]"
  have cl: "CurrentLabels (manager demoArgs) (app demoArgs) ''web'' (backend ?w) =
              Inr (Some (demoLabels 3 2 False False))"
    by (simp add: demoArgs_def recordManager_def world0_def)
  have h1: "0 \<le> sint (case Some (demoLabels 3 2 False False) of None \<Rightarrow> 0
                        | Some l \<Rightarrow> AppReplicas l)"
    by (simp add: demoLabels_def)
  have h2: "sint (case Some (demoLabels 3 2 False False) of None \<Rightarrow> 0
                   | Some l \<Rightarrow> AppReplicas l) + sint (Increment ?st) < 0"
    by (simp add: demoLabels_def)
  from deployService_invalid_scale [OF cl h1 h2, of demoExt "''v2''"]
  show ?thesis
    by (simp add: demoArgs_def world0_def)
qed

text \<open>
  The claim as it stands says that no backend call is made. The replica count comes from
  \<^verbatim>\<open>CurrentLabels\<close>, which is called first (line 100): on a process with three
  replicas and an increment of minus four the step fails with the invalid-scale error
  after one call on the backend.
\<close>

theorem deployService_invalid_scale_counterexample:
  "fst (deployService demoExt demoArgs ''web'' ''v2''
          \<lparr>Stop = False, Start = False, Restart = False, Sleep = False, Increment = - 4\<rparr>
          (world0 [(''web'', demoLabels 3 2 False False, 3, ''v1'')])) =
     Some ErrLessThanZeroUnits \<and>
   newCalls (world0 [(''web'', demoLabels 3 2 False False, 3, ''v1'')])
     (snd (deployService demoExt demoArgs ''web'' ''v2''
          \<lparr>Stop = False, Start = False, Restart = False, Sleep = False, Increment = - 4\<rparr>
          (world0 [(''web'', demoLabels 3 2 False False, 3, ''v1'')]))) =
     [CallCurrentLabels ''app'' ''web''] \<and>
   newCalls (world0 [(''web'', demoLabels 3 2 False False, 3, ''v1'')])
     (snd (deployService demoExt demoArgs ''web'' ''v2''
          \<lparr>Stop = False, Start = False, Restart = False, Sleep = False, Increment = - 4\<rparr>
          (world0 [(''web'', demoLabels 3 2 False False, 3, ''v1'')]))) \<noteq> []"
  by (simp add: step_defs demo_defs)

subsection \<open>Start and restart on zero replicas\<close>

lemma mergeState_start_zero:
  assumes "Start st \<or> Restart st"
    and "(case ol of None \<Rightarrow> 0 | Some l \<Rightarrow> AppReplicas l) + Increment st = 0"
  shows "mergeState st ol = Inr (1, case ol of None \<Rightarrow> 0 | Some l \<Rightarrow> Restarts l, False, False)"
proof (cases "Increment st = 0")
  case True
  with assms show ?thesis
    by (simp add: mergeState_def Let_def)
next
  case False
  with assms show ?thesis
    by (simp add: mergeState_def Let_def)
qed

text \<open>
  Claim C6, amended. In the deploy step a request with \<open>Start\<close> or \<open>Restart\<close> on a
  process whose replica count is zero once the increment of the same request is applied
  (as it is for a count of zero and no increment) is deployed with a replica count of one
  in its labels; the stopped and asleep flags of the old labels are dropped, so the new
  labels carry a marker only if the same request asks for \<open>Stop\<close> or \<open>Sleep\<close>, and
  the backend receives one replica unless the request asks for \<open>Stop\<close>.
\<close>

theorem deployService_start_from_zero:
  assumes "Start st \<or> Restart st"
    and "CurrentLabels (manager args) (app args) p (backend w) = Inr ol"
    and "(case ol of None \<Rightarrow> 0 | Some l \<Rightarrow> AppReplicas l) + Increment st = 0"
    and "labelsInvalid ext \<lparr>App = app args, Process = p, Replicas = 1\<rparr> = None"
  shows "newCalls w (snd (deployService ext args p img st w)) =
           [CallCurrentLabels (app args) p,
            CallDeployService (app args) p
              \<lparr>labelApp = app args, labelProcess = p, AppReplicas = 1,
               Restarts = (if Restart st
                           then (case ol of None \<Rightarrow> 0 | Some l \<Rightarrow> Restarts l) + 1 else 0),
               IsStopped = Stop st, IsAsleep = Sleep st\<rparr>
              (if Stop st then 0 else 1) img]"
  by (simp add: deployService_deploys [OF assms(2) mergeState_start_zero [OF assms(1,3)] assms(4)]
        newCalls_callDeployService)

theorem deployService_start_from_zero_witness:
  "(Start \<lparr>Stop = False, Start = True, Restart = False, Sleep = False, Increment = 0\<rparr> \<or>
    Restart \<lparr>Stop = False, Start = True, Restart = False, Sleep = False, Increment = 0\<rparr>) \<and>
   AppReplicas (demoLabels 0 2 True True) + 0 = 0 \<and>
   newCalls (world0 [(''web'', demoLabels 0 2 True True, 0, ''v1'')])
     (snd (deployService demoExt demoArgs ''web'' ''v2''
            \<lparr>Stop = False, Start = True, Restart = False, Sleep = False, Increment = 0\<rparr>
            (world0 [(''web'', demoLabels 0 2 True True, 0, ''v1'')]))) =
     [CallCurrentLabels ''app'' ''web'',
      CallDeployService ''app'' ''web''
        \<lparr>labelApp = ''app'', labelProcess = ''web'', AppReplicas = 1, Restarts = 0,
         IsStopped = False, IsAsleep = False\<rparr> 1 ''v2'']"
proof -
  let ?st = "\<lparr>Stop = False, Start = True, Restart = False, Sleep = False, Increment = 0\<rparr>"
  let ?w = "world0 [(''web'', demoLabels 0 2 True True, 0, ''v1'')]"
  have s: "Start ?st \<or> Restart ?st" by simp
  have cl: "CurrentLabels (manager demoArgs) (app demoArgs) ''web'' (backend ?w) =
              Inr (Some (demoLabels 0 2 True True))"
    by (simp add: demoArgs_def recordManager_def world0_def)
  have z: "(case Some (demoLabels 0 2 True True) of None \<Rightarrow> 0 | Some l \<Rightarrow> AppReplicas l)
             + Increment ?st = 0"
    by (simp add: demoLabels_def)
  have li: "labelsInvalid demoExt \<lparr>App = app demoArgs, Process = ''web'', Replicas = 1\<rparr> = None"
    by (simp add: demoExt_def memoryExternals_def)
  from deployService_start_from_zero [OF s cl z li, of "''v2''"]
  show ?thesis
    by (simp add: demoArgs_def demoLabels_def)
qed

text \<open>
  The claim as it stands says "regardless of the increment". The increment is applied
  before the start is looked at (lines 114 to 123): a start with an increment of five on a
  process with zero replicas gives five replicas, not one.
\<close>

theorem deployService_start_from_zero_counterexample:
  "newCalls (world0 [(''web'', demoLabels 0 0 False False, 0, ''v1'')])
     (snd (deployService demoExt demoArgs ''web'' ''v2''
          \<lparr>Stop = False, Start = True, Restart = False, Sleep = False, Increment = 5\<rparr>
          (world0 [(''web'', demoLabels 0 0 False False, 0, ''v1'')]))) =
     [CallCurrentLabels ''app'' ''web'',
      CallDeployService ''app'' ''web''
        \<lparr>labelApp = ''app'', labelProcess = ''web'', AppReplicas = 5, Restarts = 0,
         IsStopped = False, IsAsleep = False\<rparr> 5 ''v2'']"
  by (simp add: step_defs demo_defs)

subsection \<open>A stopped process\<close>

lemma mergeState_untouched:
  assumes "\<not> Start st" and "\<not> Restart st" and "Increment st = 0"
  shows "mergeState st (Some l) = Inr (AppReplicas l, Restarts l, IsStopped l, IsAsleep l)"
  using assms by (simp add: mergeState_def Let_def)

text \<open>
  Claim C7, amended. A process whose old labels mark it stopped, deployed with a request
  that has neither \<open>Start\<close> nor \<open>Restart\<close> set and no increment (the zero state, which
  the pipeline gives to a process that is missing from a supplied override map), is
  deployed with zero replicas, has the stopped marker on its new labels, and keeps the
  replica count of its old labels in the new ones.
\<close>

theorem deployService_stopped_stays_stopped:
  assumes "CurrentLabels (manager args) (app args) p (backend w) = Inr (Some l)"
    and "IsStopped l"
    and "\<not> Start st" and "\<not> Restart st" and "Increment st = 0"
    and "labelsInvalid ext \<lparr>App = app args, Process = p, Replicas = AppReplicas l\<rparr> = None"
  shows "newCalls w (snd (deployService ext args p img st w)) =
           [CallCurrentLabels (app args) p,
            CallDeployService (app args) p
              \<lparr>labelApp = app args, labelProcess = p, AppReplicas = AppReplicas l,
               Restarts = 0, IsStopped = True, IsAsleep = (IsAsleep l \<or> Sleep st)\<rparr>
              0 img]"
  using assms(2,4)
  by (simp add: deployService_deploys [OF assms(1) mergeState_untouched [OF assms(3,4,5)] assms(6)]
        newCalls_callDeployService)

theorem deployService_stopped_stays_stopped_witness:
  "IsStopped (demoLabels 3 2 True False) \<and>
   \<not> Start \<lparr>Stop = False, Start = False, Restart = False, Sleep = False, Increment = 0\<rparr> \<and>
   \<not> Restart \<lparr>Stop = False, Start = False, Restart = False, Sleep = False, Increment = 0\<rparr> \<and>
   Increment \<lparr>Stop = False, Start = False, Restart = False, Sleep = False, Increment = 0\<rparr> = 0 \<and>
   newCalls (world0 [(''web'', demoLabels 3 2 True False, 0, ''v1'')])
     (snd (deployService demoExt demoArgs ''web'' ''v2''
            \<lparr>Stop = False, Start = False, Restart = False, Sleep = False, Increment = 0\<rparr>
            (world0 [(''web'', demoLabels 3 2 True False, 0, ''v1'')]))) =
     [CallCurrentLabels ''app'' ''web'',
      CallDeployService ''app'' ''web''
        \<lparr>labelApp = ''app'', labelProcess = ''web'', AppReplicas = 3, Restarts = 0,
         IsStopped = True, IsAsleep = False\<rparr> 0 ''v2'']"
proof -
  let ?st = "\<lparr>Stop = False, Start = False, Restart = False, Sleep = False, Increment = 0\<rparr>"
  let ?w = "world0 [(''web'', demoLabels 3 2 True False, 0, ''v1'')]"
  have cl: "CurrentLabels (manager demoArgs) (app demoArgs) ''web'' (backend ?w) =
              Inr (Some (demoLabels 3 2 True False))"
    by (simp add: demoArgs_def recordManager_def world0_def)
  have stp: "IsStopped (demoLabels 3 2 True False)"
    by (simp add: demoLabels_def)
  have n1: "\<not> Start ?st" and n2: "\<not> Restart ?st" and n3: "Increment ?st = 0"
    by simp_all
  have li: "labelsInvalid demoExt
              \<lparr>App = app demoArgs, Process = ''web'',
               Replicas = AppReplicas (demoLabels 3 2 True False)\<rparr> = None"
    by (simp add: demoExt_def memoryExternals_def)
  from deployService_stopped_stays_stopped [OF cl stp n1 n2 n3 li, of "''v2''"]
  show ?thesis
    by (simp add: demoArgs_def demoLabels_def)
qed

text \<open>
  The claim as it stands speaks of any run with no override for the process. In a run
  with no override map at all (\<^verbatim>\<open>updateSpec == nil\<close>) the process gets
  \<^verbatim>\<open>ProcessState{Start: true}\<close>, and a start clears the stopped flag: a process stopped
  with three replicas is deployed with three replicas and without the marker.
\<close>

theorem RunServicePipeline_stopped_counterexample:
  "newCalls (world0 [(''web'', demoLabels 3 2 True False, 0, ''v1'')])
     (snd (RunServicePipeline
            (memoryExternals ''v1'' [(''v1'', [''web'']), (''v2'', [''web''])])
            recordManager ''app'' ''v2'' None
            (world0 [(''web'', demoLabels 3 2 True False, 0, ''v1'')]))) =
     [CallCurrentLabels ''app'' ''web'',
      CallDeployService ''app'' ''web''
        \<lparr>labelApp = ''app'', labelProcess = ''web'', AppReplicas = 3, Restarts = 0,
         IsStopped = False, IsAsleep = False\<rparr> 3 ''v2'']"
  by (simp add: step_defs demo_defs pipeline_defs)

subsection \<open>The new spec of a run\<close>

lemma map_of_fold_update:
  "map_of (fold (\<lambda>p spec. AList.update p (f p) spec) ps acc) q =
     (if q \<in> set ps then Some (f q) else map_of acc q)"
  by (induction ps arbitrary: acc) (auto simp: update_conv')

lemma buildNewSpec_fold:
  "buildNewSpec ps upd =
     fold (\<lambda>p spec. AList.update p (case upd of None \<Rightarrow> startState | Some u \<Rightarrow> specIndex u p) spec) ps []"
  unfolding buildNewSpec_def
  by (cases upd) (simp_all add: Let_def AList.update_last)

text \<open>
  Claim C2, amended. The new spec of a run has exactly the processes declared by the new
  image as keys. When the caller supplies no override map (\<^verbatim>\<open>nil\<close>), every one of
  them gets \<^verbatim>\<open>ProcessState{Start: true}\<close>. When the caller supplies an override map, the
  entry of a process in it replaces the default as a whole, and a process with no entry in
  it gets the zero state, not \<^verbatim>\<open>Start: true\<close>.
\<close>

theorem buildNewSpec_lookup:
  "map_of (buildNewSpec ps upd) p =
     (if p \<in> set ps
      then Some (case upd of
                   None \<Rightarrow> startState
                 | Some u \<Rightarrow> (case map_of u p of Some st \<Rightarrow> st | None \<Rightarrow> zeroState))
      else None)"
  by (simp add: buildNewSpec_fold map_of_fold_update specIndex_def split: option.split)

theorem buildNewSpec_lookup_witness:
  "''worker'' \<in> set [''web'', ''worker''] \<and>
   map_of (buildNewSpec [''web'', ''worker'']
             (Some [(''web'', \<lparr>Stop = False, Start = False, Restart = True, Sleep = False,
                               Increment = 0\<rparr>)])) ''web'' =
     Some \<lparr>Stop = False, Start = False, Restart = True, Sleep = False, Increment = 0\<rparr> \<and>
   map_of (buildNewSpec [''web'', ''worker''] None) ''worker'' = Some startState"
  using buildNewSpec_lookup [of "[''web'', ''worker'']"
          "Some [(''web'', \<lparr>Stop = False, Start = False, Restart = True, Sleep = False,
                            Increment = 0\<rparr>)]" "''web''"]
    buildNewSpec_lookup [of "[''web'', ''worker'']" None "''worker''"]
  by simp

text \<open>
  The claim as it stands gives \<^verbatim>\<open>Start: true\<close> to every process without an override.
  With an override map that names only \<^verbatim>\<open>web\<close>, line 67 stores
  \<^verbatim>\<open>updateSpec["worker"]\<close>, the zero value, for \<^verbatim>\<open>worker\<close>.
\<close>

theorem buildNewSpec_lookup_counterexample:
  "map_of (buildNewSpec [''web'', ''worker'']
             (Some [(''web'', \<lparr>Stop = False, Start = False, Restart = True, Sleep = False,
                               Increment = 0\<rparr>)])) ''worker'' =
     Some \<lparr>Stop = False, Start = False, Restart = False, Sleep = False, Increment = 0\<rparr>"
  by (simp add: buildNewSpec_def specIndex_def zeroState_def startState_def)

subsection \<open>An image without processes\<close>

text \<open>
  Claim C4. For a new image that declares zero processes \<^verbatim>\<open>RunServicePipeline\<close> fails
  and leaves the world as it was: no deploy, remove or label-read call is made and nothing
  is logged. Whenever the current image and its data are read without error, the error is
  the precondition error "no process information found" for the new image.
\<close>

theorem RunServicePipeline_no_processes:
  assumes "GetImageCustomData ext newImg (backend w) = Inr []"
  shows "(\<exists>e. RunServicePipeline ext mgr a newImg upd w = (Some e, w)) \<and>
         (\<forall>cur cps.
            AppCurrentImageName ext a (backend w) = Inr cur \<and>
            GetImageCustomData ext cur (backend w) = Inr cps \<longrightarrow>
            RunServicePipeline ext mgr a newImg upd w =
              (Some (ErrNoProcessInformation newImg), w))"
  using assms
  by (auto simp: RunServicePipeline_def Let_def split: sum.split)

theorem RunServicePipeline_no_processes_witness:
  "GetImageCustomData (memoryExternals ''v1'' [(''v1'', [''web'']), (''v2'', [])]) ''v2''
     (backend (world0 [(''web'', demoLabels 3 2 False False, 3, ''v1'')])) = Inr [] \<and>
   RunServicePipeline (memoryExternals ''v1'' [(''v1'', [''web'']), (''v2'', [])])
     recordManager ''app'' ''v2'' None
     (world0 [(''web'', demoLabels 3 2 False False, 3, ''v1'')]) =
   (Some (ErrNoProcessInformation ''v2''),
    \<lparr>backend = [(''web'', demoLabels 3 2 False False, 3, ''v1'')], calls = [], logged = []\<rparr>)"
proof -
  let ?ext = "memoryExternals ''v1'' [(''v1'', [''web'']), (''v2'', [])]"
  let ?w = "world0 [(''web'', demoLabels 3 2 False False, 3, ''v1'')]"
  have n: "GetImageCustomData ?ext ''v2'' (backend ?w) = Inr []"
    by (simp add: memoryExternals_def)
  have c: "AppCurrentImageName ?ext ''app'' (backend ?w) = Inr ''v1''"
    by (simp add: memoryExternals_def)
  have d: "GetImageCustomData ?ext ''v1'' (backend ?w) = Inr [''web'']"
    by (simp add: memoryExternals_def)
  from RunServicePipeline_no_processes [OF n, of recordManager "''app''" None] c d
  have "RunServicePipeline ?ext recordManager ''app'' ''v2'' None ?w =
          (Some (ErrNoProcessInformation ''v2''), ?w)"
    by blast
  with n show ?thesis
    by (simp add: world0_def)
qed

subsection \<open>Removal of the old services\<close>

lemma removeLoop_calls:
  "calls (removeLoop args ps w) = calls w @ map (CallRemoveService (app args)) ps"
proof (induction ps arbitrary: w)
  case Nil
  show ?case by simp
next
  case (Cons p ps)
  obtain err w1 where r: "callRemoveService args p w = (err, w1)"
    by (cases "callRemoveService args p w")
  then have c: "calls w1 = calls w @ [CallRemoveService (app args) p]"
    using callRemoveService_calls [of args p w] by simp
  show ?case
    by (cases err) (simp_all add: r Cons.IH c logError_def)
qed

lemma callRemoveService_logged:
  "logged (snd (callRemoveService args p w)) = logged w"
  by (simp add: callRemoveService_def split: prod.split)


lemma removeLoop_step:
  "removeLoop args (p # ps) w = removeLoop args ps (removeLoop args [p] w)"
  by (simp split: prod.split option.split)

lemma removeLoop_single_logged:
  "logged (removeLoop args [p] w) =
     logged w @ map (\<lambda>(q, e). RemovalError (app args) q e)
                  (failures [(p, fst (callRemoveService args p w))])"
proof -
  obtain err w1 where r: "callRemoveService args p w = (err, w1)"
    by (cases "callRemoveService args p w")
  then have "logged w1 = logged w"
    using callRemoveService_logged [of args p w] by simp
  with r show ?thesis
    by (cases err) (simp_all add: logError_def)
qed

lemma failures_Cons:
  "failures ((p, r) # rs) = failures [(p, r)] @ failures rs"
  by (cases r) simp_all

lemma removeLoop_logged:
  "logged (removeLoop args ps w) =
     logged w @ map (\<lambda>(q, e). RemovalError (app args) q e)
                  (failures (removalResults args ps w))"
proof (induction ps arbitrary: w)
  case Nil
  show ?case by simp
next
  case (Cons p ps)
  define W where "W = removeLoop args [p] w"
  define r where "r = fst (callRemoveService args p w)"
  have rr: "removalResults args (p # ps) w = (p, r) # removalResults args ps W"
    by (simp only: removalResults.simps W_def r_def)
  have s1: "logged (removeLoop args (p # ps) w) = logged (removeLoop args ps W)"
    unfolding W_def by (subst removeLoop_step) (rule refl)
  have s2: "logged (removeLoop args ps W) =
              logged W @ map (\<lambda>(q, e). RemovalError (app args) q e)
                           (failures (removalResults args ps W))"
    by (rule Cons.IH)
  have s3: "logged W = logged w @ map (\<lambda>(q, e). RemovalError (app args) q e)
                                    (failures [(p, r)])"
    unfolding W_def r_def by (rule removeLoop_single_logged)
  show ?case
    unfolding rr s1 s2 s3
    using failures_Cons [of p r "removalResults args ps W"] by simp
qed

text \<open>
  Claim C8. Stage C asks the backend to remove exactly the processes that are keys of the
  current spec and not keys of the new spec, each of them once, and makes no other call.
  Whatever the removals return, the stage gives no error: every removal that fails adds
  one entry to the log, with the process and the error, and the loop goes on; so a run
  whose first two stages succeed ends without error in the world that stage C leaves. For
  the current spec \<open>{a, b, c}\<close> and the new spec \<open>{a, c}\<close> the only call is the removal
  of \<open>b\<close>, and when it fails the run still succeeds, with that failure in the log.
\<close>

theorem removeOldServices_removes_difference:
  "fst (removeOldServices_Forward args w) = Inr [] \<and>
   newCalls w (snd (removeOldServices_Forward args w)) =
     map (CallRemoveService (app args))
       (Difference (FromMap (currentImageSpec args)) (FromMap (newImageSpec args))) \<and>
   set (Difference (FromMap (currentImageSpec args)) (FromMap (newImageSpec args))) =
     fst ` set (currentImageSpec args) - fst ` set (newImageSpec args) \<and>
   (distinct (map fst (currentImageSpec args)) \<longrightarrow>
      distinct (Difference (FromMap (currentImageSpec args)) (FromMap (newImageSpec args)))) \<and>
   logged (snd (removeOldServices_Forward args w)) =
     logged w @
     map (\<lambda>(p, e). RemovalError (app args) p e)
       (failures (removalResults args
          (Difference (FromMap (currentImageSpec args)) (FromMap (newImageSpec args))) w)) \<and>
   (updateServices_Forward ext args w0 = (Inr deployed, w1) \<and>
    updateImageInDB_Forward ext args deployed w1 = (Inr previous, w) \<longrightarrow>
      Execute ext args w0 = (None, snd (removeOldServices_Forward args w)))"
proof -
  let ?ps = "Difference (FromMap (currentImageSpec args)) (FromMap (newImageSpec args))"
  have "newCalls w (snd (removeOldServices_Forward args w)) =
          map (CallRemoveService (app args)) ?ps"
    by (simp add: removeOldServices_Forward_def Let_def newCalls_def removeLoop_calls)
  moreover have "set ?ps = fst ` set (currentImageSpec args) - fst ` set (newImageSpec args)"
    by (auto simp: Difference_def FromMap_def)
  moreover have "distinct (map fst (currentImageSpec args)) \<longrightarrow> distinct ?ps"
    by (simp add: Difference_def FromMap_def)
  moreover have res: "fst (removeOldServices_Forward args w) = Inr []"
    by (simp add: removeOldServices_Forward_def Let_def)
  moreover have "logged (snd (removeOldServices_Forward args w)) =
     logged w @ map (\<lambda>(p, e). RemovalError (app args) p e)
                  (failures (removalResults args ?ps w))"
    by (simp add: removeOldServices_Forward_def Let_def removeLoop_logged)
  moreover have "Execute ext args w0 = (None, snd (removeOldServices_Forward args w))"
    if "updateServices_Forward ext args w0 = (Inr deployed, w1)"
      and "updateImageInDB_Forward ext args deployed w1 = (Inr previous, w)"
    using that res
    by (simp add: Execute_def removeOldServices_Forward_def Let_def)
  ultimately show ?thesis
    by blast
qed

theorem removeOldServices_removes_difference_witness:
  "distinct (map fst (currentImageSpec demoRemoveArgs)) \<and>
   updateServices_Forward demoExt demoRemoveArgs (world0 []) =
     (Inr [''a'', ''c''],
      \<lparr>backend = [(''a'', startedLabels ''a'', 1, ''v2''), (''c'', startedLabels ''c'', 1, ''v2'')],
       calls = [CallCurrentLabels ''app'' ''a'',
                CallDeployService ''app'' ''a'' (startedLabels ''a'') 1 ''v2'',
                CallCurrentLabels ''app'' ''c'',
                CallDeployService ''app'' ''c'' (startedLabels ''c'') 1 ''v2''],
       logged = []\<rparr>) \<and>
   Execute demoExt demoRemoveArgs (world0 []) =
     (None,
      \<lparr>backend = [(''a'', startedLabels ''a'', 1, ''v2''), (''c'', startedLabels ''c'', 1, ''v2'')],
       calls = [CallCurrentLabels ''app'' ''a'',
                CallDeployService ''app'' ''a'' (startedLabels ''a'') 1 ''v2'',
                CallCurrentLabels ''app'' ''c'',
                CallDeployService ''app'' ''c'' (startedLabels ''c'') 1 ''v2'',
                CallRemoveService ''app'' ''b''],
       logged = [RemovalError ''app'' ''b'' (ErrExternal ''remove failed'')]\<rparr>)"
proof -
  let ?w1 = "\<lparr>backend = [(''a'', startedLabels ''a'', 1, ''v2''),
                         (''c'', startedLabels ''c'', 1, ''v2'')],
              calls = [CallCurrentLabels ''app'' ''a'',
                       CallDeployService ''app'' ''a'' (startedLabels ''a'') 1 ''v2'',
                       CallCurrentLabels ''app'' ''c'',
                       CallDeployService ''app'' ''c'' (startedLabels ''c'') 1 ''v2''],
              logged = []\<rparr> :: services world"
  have dist: "distinct (map fst (currentImageSpec demoRemoveArgs))"
    by (simp add: log_defs demoArgs_def)
  have fw: "updateServices_Forward demoExt demoRemoveArgs (world0 []) = (Inr [''a'', ''c''], ?w1)"
    by (simp add: step_defs demo_defs pipeline_defs log_defs)
  have db: "updateImageInDB_Forward demoExt demoRemoveArgs [''a'', ''c''] ?w1 =
              (Inr [''a'', ''c''], ?w1)"
    by (simp add: demo_defs pipeline_defs)
  have ev: "removeOldServices_Forward demoRemoveArgs ?w1 =
     (Inr [],
      \<lparr>backend = [(''a'', startedLabels ''a'', 1, ''v2''), (''c'', startedLabels ''c'', 1, ''v2'')],
       calls = [CallCurrentLabels ''app'' ''a'',
                CallDeployService ''app'' ''a'' (startedLabels ''a'') 1 ''v2'',
                CallCurrentLabels ''app'' ''c'',
                CallDeployService ''app'' ''c'' (startedLabels ''c'') 1 ''v2'',
                CallRemoveService ''app'' ''b''],
       logged = [RemovalError ''app'' ''b'' (ErrExternal ''remove failed'')]\<rparr>)"
    by (simp add: step_defs demo_defs pipeline_defs log_defs)
  from removeOldServices_removes_difference
    [where args = demoRemoveArgs and w = ?w1 and ext = demoExt and ?w0.0 = "world0 []"
      and deployed = "[''a'', ''c'']" and ?w1.0 = ?w1 and previous = "[''a'', ''c'']"]
    fw db
  have "Execute demoExt demoRemoveArgs (world0 []) =
          (None, snd (removeOldServices_Forward demoRemoveArgs ?w1))"
    by blast
  with dist fw ev show ?thesis
    by simp
qed

subsection \<open>The calls of the loops\<close>







subsection \<open>A failure in update-services\<close>








subsection \<open>What compensation deploys\<close>

lemma rollbackAddedProcesses_append:
  "rollbackAddedProcesses ext args (xs @ ys) w =
     rollbackAddedProcesses ext args ys (rollbackAddedProcesses ext args xs w)"
  by (induction xs arbitrary: w) (simp_all split: prod.split option.split)

lemma mergeState_zeroState:
  "mergeState zeroState (Some l) = Inr (AppReplicas l, Restarts l, IsStopped l, IsAsleep l)"
  by (rule mergeState_untouched) (simp_all add: zeroState_def)

text \<open>
  Claim C3, amended. Compensation handles every process of its list in turn. A process
  that is not in the current spec is removed: the only call is the removal, and it is not
  deployed again. A process that is in the current spec, with the zero state that
  \<^verbatim>\<open>RunServicePipeline\<close> gives it, is deployed again with the current image and with
  the replica count and the stopped and asleep flags that \<^verbatim>\<open>CurrentLabels\<close> returns at
  the time of the compensation, that is, the labels left by the deploy that is being
  undone; the restart count is not written to the new labels.
\<close>

theorem rollbackAddedProcesses_restores_current_labels:
  "rollbackAddedProcesses ext args (pre @ p # post) w =
     rollbackAddedProcesses ext args post
       (rollbackAddedProcesses ext args [p] (rollbackAddedProcesses ext args pre w)) \<and>
   (map_of (currentImageSpec args) p = None \<longrightarrow>
      newCalls w (rollbackAddedProcesses ext args [p] w) = [CallRemoveService (app args) p]) \<and>
   (\<forall>l. map_of (currentImageSpec args) p = Some zeroState \<and>
        CurrentLabels (manager args) (app args) p (backend w) = Inr (Some l) \<and>
        labelsInvalid ext \<lparr>App = app args, Process = p, Replicas = AppReplicas l\<rparr> = None \<longrightarrow>
      newCalls w (rollbackAddedProcesses ext args [p] w) =
        [CallCurrentLabels (app args) p,
         CallDeployService (app args) p
           \<lparr>labelApp = app args, labelProcess = p, AppReplicas = AppReplicas l,
            Restarts = 0, IsStopped = IsStopped l, IsAsleep = IsAsleep l\<rparr>
           (if IsStopped l then 0 else AppReplicas l) (currentImage args)])"
proof -
  have pos: "rollbackAddedProcesses ext args (pre @ p # post) w =
     rollbackAddedProcesses ext args post
       (rollbackAddedProcesses ext args [p] (rollbackAddedProcesses ext args pre w))"
    using rollbackAddedProcesses_append [of ext args pre "[p] @ post" w]
      rollbackAddedProcesses_append [of ext args "[p]" post]
    by simp
  have removed: "newCalls w (rollbackAddedProcesses ext args [p] w) =
                   [CallRemoveService (app args) p]"
    if "map_of (currentImageSpec args) p = None"
  proof -
    obtain err w1 where r: "callRemoveService args p w = (err, w1)"
      by (cases "callRemoveService args p w")
    then have "calls w1 = calls w @ [CallRemoveService (app args) p]"
      using callRemoveService_calls [of args p w] by simp
    with that r show ?thesis
      by (cases err) (simp_all add: newCalls_def logError_def)
  qed
  have restored: "newCalls w (rollbackAddedProcesses ext args [p] w) =
        [CallCurrentLabels (app args) p,
         CallDeployService (app args) p
           \<lparr>labelApp = app args, labelProcess = p, AppReplicas = AppReplicas l,
            Restarts = 0, IsStopped = IsStopped l, IsAsleep = IsAsleep l\<rparr>
           (if IsStopped l then 0 else AppReplicas l) (currentImage args)]"
    if cur: "map_of (currentImageSpec args) p = Some zeroState"
      and cl: "CurrentLabels (manager args) (app args) p (backend w) = Inr (Some l)"
      and li: "labelsInvalid ext \<lparr>App = app args, Process = p, Replicas = AppReplicas l\<rparr> = None"
    for l
  proof -
    let ?r = "deployService ext args p (currentImage args) zeroState w"
    have dep: "?r = callDeployService args p
             \<lparr>labelApp = app args, labelProcess = p, AppReplicas = AppReplicas l,
              Restarts = 0, IsStopped = IsStopped l, IsAsleep = IsAsleep l\<rparr>
             (if IsStopped l then 0 else AppReplicas l) (currentImage args)
             (w\<lparr>calls := calls w @ [CallCurrentLabels (app args) p]\<rparr>)"
      using deployService_deploys [OF cl mergeState_zeroState li, of "currentImage args"]
      by (simp add: zeroState_def)
    obtain err w1 where r: "?r = (err, w1)"
      by (cases ?r)
    have "calls (snd ?r) = calls w @ [CallCurrentLabels (app args) p,
         CallDeployService (app args) p
           \<lparr>labelApp = app args, labelProcess = p, AppReplicas = AppReplicas l,
            Restarts = 0, IsStopped = IsStopped l, IsAsleep = IsAsleep l\<rparr>
           (if IsStopped l then 0 else AppReplicas l) (currentImage args)]"
      unfolding dep callDeployService_calls by simp
    with r have "calls w1 = calls w @ [CallCurrentLabels (app args) p,
         CallDeployService (app args) p
           \<lparr>labelApp = app args, labelProcess = p, AppReplicas = AppReplicas l,
            Restarts = 0, IsStopped = IsStopped l, IsAsleep = IsAsleep l\<rparr>
           (if IsStopped l then 0 else AppReplicas l) (currentImage args)]"
      by simp
    with cur r show ?thesis
      by (cases err) (simp_all add: newCalls_def logError_def)
  qed
  from pos removed restored show ?thesis
    by blast
qed

theorem rollbackAddedProcesses_restores_current_labels_witness:
  "map_of (currentImageSpec demoArgs) ''worker'' = None \<and>
   newCalls (world0 []) (rollbackAddedProcesses demoExt demoArgs [''worker''] (world0 [])) =
     [CallRemoveService ''app'' ''worker''] \<and>
   map_of (currentImageSpec demoArgs) ''web'' = Some zeroState \<and>
   newCalls (world0 [(''web'', demoLabels 3 0 False False, 3, ''v2'')])
     (rollbackAddedProcesses demoExt demoArgs [''web'']
        (world0 [(''web'', demoLabels 3 0 False False, 3, ''v2'')])) =
     [CallCurrentLabels ''app'' ''web'',
      CallDeployService ''app'' ''web'' (demoLabels 3 0 False False) 3 ''v1'']"
proof -
  let ?w = "world0 [(''web'', demoLabels 3 0 False False, 3, ''v2'')]"
  have n: "map_of (currentImageSpec demoArgs) ''worker'' = None"
    by (simp add: demoArgs_def)
  have c: "map_of (currentImageSpec demoArgs) ''web'' = Some zeroState"
    by (simp add: demoArgs_def)
  have cl: "CurrentLabels (manager demoArgs) (app demoArgs) ''web'' (backend ?w) =
              Inr (Some (demoLabels 3 0 False False))"
    by (simp add: demoArgs_def recordManager_def world0_def)
  have li: "labelsInvalid demoExt
              \<lparr>App = app demoArgs, Process = ''web'',
               Replicas = AppReplicas (demoLabels 3 0 False False)\<rparr> = None"
    by (simp add: demoExt_def memoryExternals_def)
  from rollbackAddedProcesses_restores_current_labels
    [of demoExt demoArgs "[]" "''worker''" "[]" "world0 []"] n
  have a: "newCalls (world0 []) (rollbackAddedProcesses demoExt demoArgs [''worker''] (world0 [])) =
             [CallRemoveService (app demoArgs) ''worker'']"
    by blast
  from rollbackAddedProcesses_restores_current_labels
    [of demoExt demoArgs "[]" "''web''" "[]" ?w] c cl li
  have b: "newCalls ?w (rollbackAddedProcesses demoExt demoArgs [''web''] ?w) =
        [CallCurrentLabels (app demoArgs) ''web'',
         CallDeployService (app demoArgs) ''web''
           \<lparr>labelApp = app demoArgs, labelProcess = ''web'',
            AppReplicas = AppReplicas (demoLabels 3 0 False False),
            Restarts = 0, IsStopped = IsStopped (demoLabels 3 0 False False),
            IsAsleep = IsAsleep (demoLabels 3 0 False False)\<rparr>
           (if IsStopped (demoLabels 3 0 False False) then 0
            else AppReplicas (demoLabels 3 0 False False)) (currentImage demoArgs)]"
    by blast
  from n c a b show ?thesis
    by (simp add: demoArgs_def demoLabels_def)
qed

text \<open>
  The claim as it stands says that the state from before the run comes back. The labels
  from before the run are not kept anywhere: with the backend in memory, a process stopped
  with three replicas and two restarts is started by the new deploy, the deploy of the next
  process fails, and the compensation deploys the old image with three running replicas,
  not stopped, and no restart count.
\<close>

theorem RunServicePipeline_rollback_counterexample:
  "map_of (backend (world0 [(''web'', demoLabels 3 2 True False, 0, ''v1'')])) ''web'' =
     Some (demoLabels 3 2 True False, 0, ''v1'') \<and>
   fst (RunServicePipeline demoExt recordManager ''app'' ''v2''
          (Some [(''web'', startState),
                 (''worker'', \<lparr>Stop = False, Start = False, Restart = False, Sleep = False,
                                Increment = - 1\<rparr>)])
          (world0 [(''web'', demoLabels 3 2 True False, 0, ''v1'')])) =
     Some ErrLessThanZeroUnits \<and>
   map_of (backend (snd (RunServicePipeline demoExt recordManager ''app'' ''v2''
          (Some [(''web'', startState),
                 (''worker'', \<lparr>Stop = False, Start = False, Restart = False, Sleep = False,
                                Increment = - 1\<rparr>)])
          (world0 [(''web'', demoLabels 3 2 True False, 0, ''v1'')])))) ''web'' =
     Some (demoLabels 3 0 False False, 3, ''v1'')"
  by (simp add: step_defs demo_defs pipeline_defs)

end
